theory Spec2Isabelle
  imports Main
begin

section \<open>JsonML descriptions\<close>

text \<open>
  A JsonML description is a JavaScript value.  The declarations of the package type it as
  \<^verbatim>\<open>JsonMLNode = JsonMLElement | JsonMLText | JsonMLComment | JsonMLDocumentFragment\<close>:
  a primitive is a text, an array \<^verbatim>\<open>[name, ...rest]\<close> is an element, a comment or a fragment
  according to its first entry, and a plain object in second position is an attribute map.
  The code inspects the raw value (\<^verbatim>\<open>Array.isArray\<close>, \<^verbatim>\<open>typeof\<close>), so the model keeps the raw
  value: \<open>Arr name rest\<close> is the array \<^verbatim>\<open>[name, ...rest]\<close>, \<open>Obj kvs\<close> a non-array object with
  its own keys in the order of \<^verbatim>\<open>Reflect.ownKeys\<close>, and \<open>Prim p\<close> anything else.

  Numbers are the integer-valued ones of magnitude below \<^verbatim>\<open>1e21\<close>, whose \<^verbatim>\<open>String\<close> is the decimal
  numeral; fractions, \<^verbatim>\<open>NaN\<close>, the infinities and larger magnitudes are not represented.
  \<open>POther\<close> stands for a function, a symbol or any other value whose \<^verbatim>\<open>typeof\<close> no branch of
  the code names.
  Characters are the code points below 256.
\<close>

datatype prim =
    PString string
  | PNumber int
  | PBigInt int
  | PBoolean bool
  | PNull
  | PUndefined
  | POther

datatype key = KString string | KSymbol "string option"

datatype jsonml =
    Prim prim
  | Obj "(key \<times> prim) list"
  | Arr string "jsonml list"

definition htmlns :: string where
  "htmlns = ''http://www.w3.org/1999/xhtml''"

definition svgns :: string where
  "svgns = ''http://www.w3.org/2000/svg''"

definition fragment_name :: string where
  "fragment_name = ''#document-fragment''"

definition comment_name :: string where
  "comment_name = ''#comment''"

definition text_name :: string where
  "text_name = ''#text''"

subsection \<open>Strings\<close>

definition lowerChar :: "char \<Rightarrow> char" where
  "lowerChar c =
     (let n = (of_char c :: nat)
      in if (65 \<le> n \<and> n \<le> 90) \<or> (192 \<le> n \<and> n \<le> 222 \<and> n \<noteq> 215)
         then char_of (n + 32) else c)"

definition asciiUpperChar :: "char \<Rightarrow> char" where
  "asciiUpperChar c =
     (let n = (of_char c :: nat)
      in if 97 \<le> n \<and> n \<le> 122 then char_of (n - 32) else c)"

definition asciiLowerChar :: "char \<Rightarrow> char" where
  "asciiLowerChar c =
     (let n = (of_char c :: nat)
      in if 65 \<le> n \<and> n \<le> 90 then char_of (n + 32) else c)"

definition toLowerCase :: "string \<Rightarrow> string" where
  "toLowerCase s = map lowerChar s"

definition asciiUpper :: "string \<Rightarrow> string" where
  "asciiUpper s = map asciiUpperChar s"

definition asciiLower :: "string \<Rightarrow> string" where
  "asciiLower s = map asciiLowerChar s"

definition digit :: "nat \<Rightarrow> char" where
  "digit d = ''0123456789'' ! d"

function decimal :: "nat \<Rightarrow> string" where
  "decimal n = (if n < 10 then [digit n] else decimal (n div 10) @ [digit (n mod 10)])"
  by pat_completeness auto
termination
  by (relation "measure id") auto

definition String_int :: "int \<Rightarrow> string" where
  "String_int i = (if i < 0 then CHR ''-'' # decimal (nat (- i)) else decimal (nat i))"

subsection \<open>index.js: inspecting a description\<close>

text \<open>\<^verbatim>\<open>nodeValueOf\<close>: the switch on \<^verbatim>\<open>typeof jsonml\<close>.\<close>

fun nodeValueOf :: "jsonml \<Rightarrow> string" where
  "nodeValueOf (Prim (PString s)) = s"
| "nodeValueOf (Prim (PNumber n)) = String_int n"
| "nodeValueOf (Prim (PBigInt n)) = String_int n"
| "nodeValueOf (Prim (PBoolean b)) = (if b then ''true'' else ''false'')"
| "nodeValueOf _ = ''''"

text \<open>\<^verbatim>\<open>nodeNameOf\<close>: \<^verbatim>\<open>Array.isArray(jsonml) ? jsonml[0] : $text\<close>.\<close>

fun nodeNameOf :: "jsonml \<Rightarrow> string" where
  "nodeNameOf (Arr name rest) = name"
| "nodeNameOf _ = text_name"

fun isNamedNodeMap :: "jsonml \<Rightarrow> bool" where
  "isNamedNodeMap (Obj kvs) = True"
| "isNamedNodeMap _ = False"

fun isDocumentFragment :: "jsonml \<Rightarrow> bool" where
  "isDocumentFragment (Arr name rest) = (name = fragment_name)"
| "isDocumentFragment _ = False"

text \<open>
  The entries of an array after its name from which the children are read:
  \<^verbatim>\<open>for (let i = isNamedNodeMap(jsonml[1]) ? 2 : 1; i < jsonml.length;)\<close>.
\<close>

fun childrenOf :: "jsonml list \<Rightarrow> jsonml list" where
  "childrenOf (Obj kvs # rest) = rest"
| "childrenOf rest = rest"

section \<open>Live nodes\<close>

text \<open>
  The part of the DOM the code reads and writes.  An element has its namespace URI
  (\<open>None\<close> is \<^verbatim>\<open>null\<close>), the qualified name it was created with, its attributes, the properties
  assigned to it and its children.  A comment carries the out-of-band mark of a
  \<^verbatim>\<open>JsonMLDelimiter\<close> (the own property \<^verbatim>\<open>JsonMLSymbol\<close>).
\<close>

datatype node =
    Element "string option" string "(string \<times> string) list" "(string \<times> prim) list" "node list"
  | Text string
  | Comment bool string

text \<open>
  \<^verbatim>\<open>node.nodeName\<close> in an HTML document: the qualified name, in ASCII upper case for an element
  of the HTML namespace.
\<close>

fun nodeName :: "node \<Rightarrow> string" where
  "nodeName (Element ns name attrs props cs) =
     (if ns = Some htmlns then asciiUpper name else name)"
| "nodeName (Text v) = text_name"
| "nodeName (Comment d v) = comment_name"

text \<open>
  The second argument of the factory functions and \<^verbatim>\<open>node.namespaceURI\<close> as the code reads it:
  \<^verbatim>\<open>undefined\<close> (an omitted argument; a Text or Comment has no such property), or a
  namespace, \<^verbatim>\<open>null\<close> being \<open>Uri None\<close>.
\<close>

datatype xmlns = Undefined | Uri "string option"

fun namespaceURI :: "node \<Rightarrow> xmlns" where
  "namespaceURI (Element ns name attrs props cs) = Uri ns"
| "namespaceURI _ = Undefined"

fun nodeValue :: "node \<Rightarrow> string option" where
  "nodeValue (Element ns name attrs props cs) = None"
| "nodeValue (Text v) = Some v"
| "nodeValue (Comment d v) = Some v"

text \<open>Assigning \<^verbatim>\<open>node.nodeValue\<close>; on an element the setter does nothing.\<close>

fun setNodeValue :: "node \<Rightarrow> string \<Rightarrow> node" where
  "setNodeValue (Element ns name attrs props cs) v = Element ns name attrs props cs"
| "setNodeValue (Text w) v = Text v"
| "setNodeValue (Comment d w) v = Comment d v"

fun childNodes :: "node \<Rightarrow> node list" where
  "childNodes (Element ns name attrs props cs) = cs"
| "childNodes _ = []"

fun setChildNodes :: "node \<Rightarrow> node list \<Rightarrow> node" where
  "setChildNodes (Element ns name attrs props cs) cs' = Element ns name attrs props cs'"
| "setChildNodes n cs' = n"

text \<open>\<^verbatim>\<open>instance instanceof JsonMLDelimiter\<close>: a Comment that has the mark.\<close>

fun isDelimiter :: "node \<Rightarrow> bool" where
  "isDelimiter (Comment d v) = d"
| "isDelimiter _ = False"

subsection \<open>DOM operations used by the factory\<close>

text \<open>
  \<^verbatim>\<open>document.createElementNS\<close> (the empty string is the null namespace).  The DOM refuses
  an ill-formed name with an exception; the model is of the calls it accepts.
\<close>

definition createElementNS :: "string option \<Rightarrow> string \<Rightarrow> node" where
  "createElementNS ns name = Element (if ns = Some [] then None else ns) name [] [] []"

fun assign :: "'k \<Rightarrow> 'v \<Rightarrow> ('k \<times> 'v) list \<Rightarrow> ('k \<times> 'v) list" where
  "assign k v [] = [(k, v)]"
| "assign k v ((k', v') # kvs) = (if k = k' then (k, v) # kvs else (k', v') # assign k v kvs)"

fun attrName :: "node \<Rightarrow> string \<Rightarrow> string" where
  "attrName (Element ns name attrs props cs) k = (if ns = Some htmlns then asciiLower k else k)"
| "attrName n k = k"

fun setAttribute :: "node \<Rightarrow> string \<Rightarrow> string \<Rightarrow> node" where
  "setAttribute (Element ns name attrs props cs) k v =
     Element ns name (assign (attrName (Element ns name attrs props cs) k) v attrs) props cs"
| "setAttribute n k v = n"

fun toggleAttribute :: "node \<Rightarrow> string \<Rightarrow> bool \<Rightarrow> node" where
  "toggleAttribute (Element ns name attrs props cs) k force =
     (let k' = attrName (Element ns name attrs props cs) k
      in if k' \<in> fst ` set attrs
         then (if force then Element ns name attrs props cs
               else Element ns name (filter (\<lambda>kv. fst kv \<noteq> k') attrs) props cs)
         else (if force then Element ns name (attrs @ [(k', [])]) props cs
               else Element ns name attrs props cs))"
| "toggleAttribute n k force = n"

text \<open>
  \<^verbatim>\<open>element[key.description] = value\<close>, recorded as an assignment.  What a setter of the DOM
  does on such an assignment (an attribute reflected, children rebuilt) is not represented.
\<close>

fun setProperty :: "node \<Rightarrow> string \<Rightarrow> prim \<Rightarrow> node" where
  "setProperty (Element ns name attrs props cs) k v =
     Element ns name attrs (assign k v props) cs"
| "setProperty n k v = n"

fun append :: "node \<Rightarrow> node list \<Rightarrow> node" where
  "append (Element ns name attrs props cs) new = Element ns name attrs props (cs @ new)"
| "append n new = n"

section \<open>index.js: the node factory\<close>

text \<open>
  The repository holds two copies of the factory module.  They differ in one call: in
  \<^verbatim>\<open>src/index.js\<close> the fragment case of \<^verbatim>\<open>createNode\<close> is \<^verbatim>\<open>createDocumentFragment(jsonml)\<close>
  and \<^verbatim>\<open>createDocumentFragment\<close> calls \<^verbatim>\<open>createNode(jsonml[i++])\<close>; in the other copy
  (the one that exports \<^verbatim>\<open>isDocumentFragment\<close> and \<^verbatim>\<open>JsonMLSymbol\<close>, which \<^verbatim>\<open>render.js\<close>
  imports) both calls pass \<^verbatim>\<open>xmlns\<close> on.  The factory is modelled once, with the copy as
  its first argument.
\<close>

datatype module = IndexJs | IndexJsWithFragmentNs

text \<open>The loop over \<^verbatim>\<open>Reflect.ownKeys(attrs)\<close> in \<^verbatim>\<open>createElement\<close>.\<close>

fun applyAttr :: "node \<Rightarrow> key \<times> prim \<Rightarrow> node" where
  "applyAttr el (KString k, PString s) = setAttribute el k s"
| "applyAttr el (KString k, PNumber n) = setAttribute el k (String_int n)"
| "applyAttr el (KString k, PBigInt n) = setAttribute el k (String_int n)"
| "applyAttr el (KString k, PBoolean b) = toggleAttribute el k b"
| "applyAttr el (KString k, v) = el"
| "applyAttr el (KSymbol (Some d), v) = setProperty el d v"
| "applyAttr el (KSymbol None, v) = el"

text \<open>
  \<^verbatim>\<open>typeof attrs.xmlns === 'string' || attrs.xmlns === null\<close>: the namespace an attribute
  map imposes, if any.
\<close>

fun xmlnsOverride :: "(key \<times> prim) list \<Rightarrow> string option option" where
  "xmlnsOverride kvs =
     (case map_of kvs (KString ''xmlns'') of
        Some (PString s) \<Rightarrow> Some (Some s)
      | Some PNull \<Rightarrow> Some None
      | _ \<Rightarrow> None)"

text \<open>The namespace \<^verbatim>\<open>createElement\<close> works with: the default parameter \<^verbatim>\<open>xmlns = htmlns\<close>.\<close>

fun defaultNs :: "xmlns \<Rightarrow> string option" where
  "defaultNs Undefined = Some htmlns"
| "defaultNs (Uri ns) = ns"

fun elementNs :: "jsonml list \<Rightarrow> xmlns \<Rightarrow> string option" where
  "elementNs (Obj kvs # rest) xmlns =
     (case xmlnsOverride kvs of Some ns \<Rightarrow> ns | None \<Rightarrow> defaultNs xmlns)"
| "elementNs rest xmlns = defaultNs xmlns"

fun attrsOf :: "jsonml list \<Rightarrow> (key \<times> prim) list" where
  "attrsOf (Obj kvs # rest) = kvs"
| "attrsOf rest = []"

definition createTextNode :: "jsonml \<Rightarrow> node" where
  "createTextNode jsonml = Text (nodeValueOf jsonml)"

text \<open>\<^verbatim>\<open>createComment\<close> reads \<^verbatim>\<open>jsonml[1]\<close>, which is \<^verbatim>\<open>undefined\<close> in \<^verbatim>\<open>[$comment]\<close>.\<close>

fun createComment :: "jsonml list \<Rightarrow> node" where
  "createComment [] = Comment False (nodeValueOf (Prim PUndefined))"
| "createComment (x # rest) = Comment False (nodeValueOf x)"

text \<open>
  \<open>createNode m jsonml xmlns\<close> is the list of nodes that \<^verbatim>\<open>parent.append(createNode(jsonml, xmlns))\<close>
  inserts: the node itself, or the children of the DocumentFragment it returns.
  \<open>createElement m name rest xmlns\<close> is \<^verbatim>\<open>createElement([name, ...rest], xmlns)\<close>, and
  \<open>createDocumentFragment m rest xmlns\<close> is \<^verbatim>\<open>createDocumentFragment([name, ...rest], xmlns)\<close>,
  which never reads the name.
\<close>

lemma childrenOf_subset: "set (childrenOf rest) \<subseteq> set rest"
  by (induction rest rule: childrenOf.induct) auto

lemma size_child_less: "c \<in> set rest \<Longrightarrow> size c < Suc (size_list size rest)"
  by (induction rest) auto

function (sequential) createNode :: "module \<Rightarrow> jsonml \<Rightarrow> xmlns \<Rightarrow> node list"
  and createElement :: "module \<Rightarrow> string \<Rightarrow> jsonml list \<Rightarrow> xmlns \<Rightarrow> node"
  and createDocumentFragment :: "module \<Rightarrow> jsonml list \<Rightarrow> xmlns \<Rightarrow> node list"
where
  "createNode m (Arr name rest) xmlns =
     (if name = fragment_name then
        (case m of
           IndexJs \<Rightarrow> createDocumentFragment m rest Undefined
         | IndexJsWithFragmentNs \<Rightarrow> createDocumentFragment m rest xmlns)
      else if name = comment_name then [createComment rest]
      else [createElement m name rest xmlns])"
| "createNode m (Prim p) xmlns = [createTextNode (Prim p)]"
| "createNode m (Obj kvs) xmlns = [createTextNode (Obj kvs)]"
| "createElement m name rest xmlns =
     (let ns = elementNs rest xmlns;
          element = foldl applyAttr (createElementNS ns name) (attrsOf rest)
      in append element (concat (map (\<lambda>c. createNode m c (Uri ns)) (childrenOf rest))))"
| "createDocumentFragment m rest xmlns =
     (case m of
        IndexJs \<Rightarrow> concat (map (\<lambda>c. createNode m c Undefined) rest)
      | IndexJsWithFragmentNs \<Rightarrow> concat (map (\<lambda>c. createNode m c xmlns) rest))"
  by pat_completeness auto
termination
proof (relation "measure (\<lambda>x. case x of
          Inl (m, j, ns) \<Rightarrow> 2 * size j
        | Inr (Inl (m, name, rest, ns)) \<Rightarrow> 2 * size_list size rest + 1
        | Inr (Inr (m, rest, ns)) \<Rightarrow> 2 * size_list size rest + 1)", goal_cases)
  case 1
  show ?case by simp
next
  case (5 m name rest xmlns ns element c)
  then have "c \<in> set rest" using childrenOf_subset by blast
  then show ?case using size_child_less [of c rest] by simp
next
  case (6 m rest xmlns c)
  then show ?case using size_child_less [of c rest] by simp
next
  case (7 m rest xmlns c)
  then show ?case using size_child_less [of c rest] by simp
qed simp_all

section \<open>render.js: the reconciler\<close>

text \<open>
  The reconciler mutates the live tree in place.  The model passes the tree explicitly and
  records every mutation of it: a write of \<^verbatim>\<open>nodeValue\<close> (the node before the write and
  the value written), a \<^verbatim>\<open>replaceWith\<close> (the node replaced and the nodes put in its place),
  an \<^verbatim>\<open>appendChild\<close> that inserts at least one node, and a \<^verbatim>\<open>removeChild\<close>.
\<close>

datatype mutation =
    ValueWritten node string
  | Replaced node "node list"
  | Appended "node list"
  | Removed node

text \<open>
  What a patch did to the live node it was given: it kept the node (changed in place, with
  the same identity), or replaced it in its parent by other nodes.
\<close>

datatype outcome = InPlace node | ReplacedBy "node list"

definition sameNodeName :: "jsonml \<Rightarrow> node \<Rightarrow> bool" where
  "sameNodeName jsonml node =
     (if namespaceURI node = Uri (Some svgns)
      then nodeName node = nodeNameOf jsonml
      else toLowerCase (nodeName node) = toLowerCase (nodeNameOf jsonml))"

text \<open>
  \<^verbatim>\<open>createDelimitedDocumentFragment([name, ...rest], xmlns)\<close>: a new \<^verbatim>\<open>JsonMLDelimiter\<close> (a
  marked Comment with no data), then the nodes of every entry from index 1 on.
\<close>

definition createDelimitedDocumentFragment :: "module \<Rightarrow> jsonml list \<Rightarrow> xmlns \<Rightarrow> node list" where
  "createDelimitedDocumentFragment m rest xmlns =
     Comment True [] # concat (map (\<lambda>c. createNode m c xmlns) rest)"

fun createDelimitedNode :: "module \<Rightarrow> jsonml \<Rightarrow> xmlns \<Rightarrow> node list" where
  "createDelimitedNode m (Arr name rest) xmlns =
     (if name = fragment_name then createDelimitedDocumentFragment m rest xmlns
      else createNode m (Arr name rest) xmlns)"
| "createDelimitedNode m jsonml xmlns = createNode m jsonml xmlns"

text \<open>\<^verbatim>\<open>patchNode\<close>.\<close>

definition patchNode :: "module \<Rightarrow> jsonml \<Rightarrow> node \<Rightarrow> outcome \<times> mutation list" where
  "patchNode m jsonml node =
     (if sameNodeName jsonml node then
        (let v = nodeValueOf jsonml
         in if nodeValue node \<noteq> Some v
            then (InPlace (setNodeValue node v), [ValueWritten node v])
            else (InPlace node, []))
      else
        (let new = createDelimitedNode m jsonml (namespaceURI node)
         in (ReplacedBy new, [Replaced node new])))"

subsection \<open>The sibling list and the TreeWalker\<close>

text \<open>
  Inside \<^verbatim>\<open>patchElement\<close> the children of \<^verbatim>\<open>root\<close> are a list, and a reference to one of
  them is its index.  \<^verbatim>\<open>treeWalker.currentNode\<close> is \<open>Some j\<close> while it is the child at
  index \<open>j\<close>, and \<open>None\<close> once that node has been replaced and is no longer in the tree.
  The local variables \<^verbatim>\<open>currentNode\<close> and \<^verbatim>\<open>nextSibling\<close> are \<open>Some j\<close> or \<^verbatim>\<open>null\<close> (\<open>None\<close>);
  when one is \<open>Some j\<close> it was returned by the walker, so \<open>j\<close> is below the length of the list.
  The walker shows elements, texts and comments, that is every child of an element.
\<close>

text \<open>
  \<^verbatim>\<open>treeWalker.nextSibling()\<close>: the walker moves to the next sibling and returns it, or stays
  and returns \<^verbatim>\<open>null\<close>; a node outside the tree has no sibling.  The result is the new
  position of the walker and the value returned.
\<close>

fun walkerNextSibling :: "node list \<Rightarrow> nat option \<Rightarrow> nat option \<times> nat option" where
  "walkerNextSibling cs None = (None, None)"
| "walkerNextSibling cs (Some j) =
     (if Suc j < length cs then (Some (Suc j), Some (Suc j)) else (Some j, None))"

text \<open>
  \<^verbatim>\<open>treeWalker.currentNode.nextSibling ? treeWalker.currentNode : null\<close>, the value given to
  \<^verbatim>\<open>nextSibling\<close> after a fragment has been patched.
\<close>

fun currentIfNext :: "node list \<Rightarrow> nat option \<Rightarrow> nat option" where
  "currentIfNext cs None = None"
| "currentIfNext cs (Some j) = (if Suc j < length cs then Some j else None)"

definition replaceAt :: "nat \<Rightarrow> node list \<Rightarrow> node list \<Rightarrow> node list" where
  "replaceAt k new cs = take k cs @ new @ drop (Suc k) cs"

text \<open>Where a reference to the child at index \<open>j\<close> points after the child at \<open>k\<close> was replaced.\<close>

fun moved :: "nat \<Rightarrow> nat \<Rightarrow> nat option \<Rightarrow> nat option" where
  "moved k n None = None"
| "moved k n (Some j) =
     (if j = k then None else if k < j then Some (j + n - 1) else Some j)"

text \<open>
  The effect on the sibling list, the walker and \<^verbatim>\<open>nextSibling\<close> of a patch of the child at
  index \<open>k\<close>.
\<close>

fun place ::
  "nat \<Rightarrow> outcome \<times> mutation list \<Rightarrow> node list \<Rightarrow> nat option \<Rightarrow> nat option
   \<Rightarrow> node list \<times> nat option \<times> nat option \<times> mutation list" where
  "place k (InPlace n, log) cs w nxt = (cs[k := n], w, nxt, log)"
| "place k (ReplacedBy new, log) cs w nxt =
     (replaceAt k new cs, moved k (length new) w, moved k (length new) nxt, log)"

definition appended :: "node list \<Rightarrow> mutation list" where
  "appended new = (if new = [] then [] else [Appended new])"

text \<open>
  The final loop of \<^verbatim>\<open>patchElement\<close>:
  \<^verbatim>\<open>while (currentNode) { ...; root.removeChild(currentNode); currentNode = nextSibling; }\<close>.
\<close>

fun trim :: "nat option \<Rightarrow> node list \<Rightarrow> node list \<times> mutation list" where
  "trim None cs = (cs, [])"
| "trim (Some k) cs = (take k cs, map Removed (drop k cs))"

subsection \<open>patchElement and patchDocumentFragment\<close>

text \<open>
  \<open>patchElement m name rest root\<close> is \<^verbatim>\<open>patchElement([name, ...rest], root)\<close>, and
  \<open>patchDocumentFragment m rest k (cs, w)\<close> is
  \<^verbatim>\<open>patchDocumentFragment([$fragment, ...rest], delimiter, treeWalker)\<close> where \<^verbatim>\<open>delimiter\<close> is the
  child at index \<open>k\<close> of the walker's root, whose children are \<open>cs\<close>, and the walker is at \<open>w\<close>.

  Both functions run the same loop body while \<^verbatim>\<open>currentNode\<close> is not null; it is
  \<open>patchCurrent\<close>.  The bodies differ when \<^verbatim>\<open>currentNode\<close> is null: \<open>elementStep\<close> and
  \<open>fragmentStep\<close> are one turn of either loop, on the state
  (children of the root, walker, \<^verbatim>\<open>currentNode\<close>, mutations so far).
  The assignment to \<^verbatim>\<open>treeWalker.nextnext\<close> stores a value nothing reads; its call of
  \<^verbatim>\<open>treeWalker.nextSibling()\<close> moves the walker.
\<close>

function
  patchElement :: "module \<Rightarrow> string \<Rightarrow> jsonml list \<Rightarrow> node \<Rightarrow> outcome \<times> mutation list"
  and patchDocumentFragment ::
    "module \<Rightarrow> jsonml list \<Rightarrow> nat \<Rightarrow> node list \<times> nat option
     \<Rightarrow> node list \<times> nat option \<times> mutation list"
  and patchCurrent ::
    "module \<Rightarrow> jsonml \<Rightarrow> nat \<Rightarrow> node list \<times> nat option
     \<Rightarrow> node list \<times> nat option \<times> nat option \<times> mutation list"
  and elementStep ::
    "module \<Rightarrow> xmlns \<Rightarrow> node list \<times> nat option \<times> nat option \<times> mutation list \<Rightarrow> jsonml
     \<Rightarrow> node list \<times> nat option \<times> nat option \<times> mutation list"
  and fragmentStep ::
    "module \<Rightarrow> node list \<times> nat option \<times> nat option \<times> mutation list \<Rightarrow> jsonml
     \<Rightarrow> node list \<times> nat option \<times> nat option \<times> mutation list"
where
  "patchElement m name rest root =
     (if sameNodeName (Arr name rest) root then
        (case childNodes root of
           [] \<Rightarrow>
             (let new = createDocumentFragment m rest (namespaceURI root)
              in (InPlace (append root new), appended new))
         | c # cs \<Rightarrow>
             (case foldl (elementStep m (namespaceURI root)) (c # cs, Some 0, Some 0, [])
                     (childrenOf rest) of
                (cs', w, cur, log) \<Rightarrow>
                  (case trim cur cs' of
                     (cs'', removed) \<Rightarrow> (InPlace (setChildNodes root cs''), log @ removed))))
      else
        (let new = [createElement m name rest Undefined]
         in (ReplacedBy new, [Replaced root new])))"
| "patchDocumentFragment m rest k (cs, w) =
     (if isDelimiter (cs ! k) then
        (case foldl (fragmentStep m) (cs, w, w, []) (childrenOf rest) of
           (cs', w', cur, log) \<Rightarrow> (cs', w', log))
      else
        (let new = createDelimitedDocumentFragment m rest Undefined
         in (replaceAt k new cs, moved k (length new) w, [Replaced (cs ! k) new])))"
| "patchCurrent m jsonml k (cs, w) =
     (case walkerNextSibling cs w of
        (w1, nxt) \<Rightarrow>
          (case jsonml of
             Arr name rest \<Rightarrow>
               (if name = fragment_name then
                  (case patchDocumentFragment m rest k (cs, w1) of
                     (cs', w', log) \<Rightarrow> (cs', w', currentIfNext cs' w', log))
                else if name = comment_name then place k (patchNode m jsonml (cs ! k)) cs w1 nxt
                else place k (patchElement m name rest (cs ! k)) cs w1 nxt)
           | _ \<Rightarrow> place k (patchNode m jsonml (cs ! k)) cs w1 nxt))"
| "elementStep m xmlns (cs, w, cur, log) jsonml =
     (case cur of
        Some k \<Rightarrow>
          (case patchCurrent m jsonml k (cs, w) of
             (cs', w', nxt, log') \<Rightarrow> (cs', w', nxt, log @ log'))
      | None \<Rightarrow>
          (let new = createDelimitedNode m jsonml xmlns
           in (cs @ new, w, None, log @ appended new)))"
| "fragmentStep m (cs, w, cur, log) jsonml =
     (case cur of
        Some k \<Rightarrow>
          (case patchCurrent m jsonml k (cs, w) of
             (cs', w', nxt, log') \<Rightarrow> (cs', w', nxt, log @ log'))
      | None \<Rightarrow>
          (let new = createDelimitedNode m jsonml Undefined
           in (cs @ new, fst (walkerNextSibling (cs @ new) w), None, log @ appended new)))"
  by pat_completeness auto
termination
proof (relation "measure (\<lambda>x. case x of
          Inl (Inl (m, name, rest, root)) \<Rightarrow> 3 * size_list size rest + 2
        | Inl (Inr (m, rest, k, st)) \<Rightarrow> 3 * size_list size rest + 2
        | Inr (Inl (m, jsonml, k, st)) \<Rightarrow> 3 * size jsonml
        | Inr (Inr (Inl (m, xmlns, st, jsonml))) \<Rightarrow> 3 * size jsonml + 1
        | Inr (Inr (Inr (m, st, jsonml))) \<Rightarrow> 3 * size jsonml + 1)", goal_cases)
  case 1
  show ?case by simp
next
  case (2 m name rest root c cs st d)
  then have "d \<in> set rest" using childrenOf_subset by blast
  then show ?case using size_child_less [of d rest] by simp
next
  case (3 m rest k cs w st d)
  then have "d \<in> set rest" using childrenOf_subset by blast
  then show ?case using size_child_less [of d rest] by simp
qed simp_all

text \<open>\<^verbatim>\<open>render(jsonml, root)\<close> is \<^verbatim>\<open>patchElement([root.nodeName, jsonml], root)\<close>.\<close>

definition render :: "module \<Rightarrow> jsonml \<Rightarrow> node \<Rightarrow> outcome \<times> mutation list" where
  "render m jsonml root = patchElement m (nodeName root) [jsonml] root"


declare patchElement.simps [simp del]
declare patchDocumentFragment.simps [simp del]
declare patchCurrent.simps [simp del]
declare elementStep.simps [simp del]
declare fragmentStep.simps [simp del]
declare createNode.simps [simp del]
declare createElement.simps [simp del]
declare createDocumentFragment.simps [simp del]

section \<open>Notions used to state the properties\<close>

text \<open>\<^verbatim>\<open>render\<close> is declared for a \<^verbatim>\<open>root: Element\<close>.\<close>

fun isElement :: "node \<Rightarrow> bool" where
  "isElement (Element ns name attrs props cs) = True"
| "isElement _ = False"

text \<open>The nodes that stand where a live node stood, after it was patched.\<close>

fun nodesOf :: "outcome \<Rightarrow> node list" where
  "nodesOf (InPlace n) = [n]"
| "nodesOf (ReplacedBy new) = new"

text \<open>
  The patch of one live child \<open>c\<close> against a description that is not a fragment, by the
  dispatch of the two loops: \<^verbatim>\<open>patchNode\<close> for a comment or a text, \<^verbatim>\<open>patchElement\<close> for any
  other array.
\<close>

definition patched :: "module \<Rightarrow> jsonml \<Rightarrow> node \<Rightarrow> node list" where
  "patched m jsonml c =
     nodesOf (fst (case jsonml of
        Arr name rest \<Rightarrow>
          if name = comment_name then patchNode m jsonml c else patchElement m name rest c
      | _ \<Rightarrow> patchNode m jsonml c))"

text \<open>
  The positional pairing of descriptions with live children: each description patches the
  live child at its position, descriptions past the last live child are built fresh, and
  live children past the last description are dropped.
\<close>

fun align :: "module \<Rightarrow> xmlns \<Rightarrow> jsonml list \<Rightarrow> node list \<Rightarrow> node list" where
  "align m xmlns [] live = []"
| "align m xmlns (d # ds) [] = createNode m d xmlns @ align m xmlns ds []"
| "align m xmlns (d # ds) (c # cs) = patched m d c @ align m xmlns ds cs"

text \<open>
  The shape and values of a live tree: the kind of each node, the node name of an element
  up to case, the value of a text or a comment, and the children in order.  Attributes,
  properties, namespaces and the mark of a delimiter are not part of it.
\<close>

datatype shape = SElement string "shape list" | SText string | SComment string

fun shapeOf :: "node \<Rightarrow> shape" where
  "shapeOf (Element ns name attrs props cs) =
     SElement (toLowerCase (nodeName (Element ns name attrs props cs))) (map shapeOf cs)"
| "shapeOf (Text v) = SText v"
| "shapeOf (Comment d v) = SComment v"

text \<open>
  The DOM creates no element whose name is empty or begins with \<^verbatim>\<open>#\<close>, so the name of a
  live element is never one of \<^verbatim>\<open>#text\<close> and \<^verbatim>\<open>#comment\<close>.  \<open>wfNode\<close> says so of a live tree.
\<close>

definition isElementName :: "string \<Rightarrow> bool" where
  "isElementName name = (name \<noteq> [] \<and> hd name \<noteq> CHR ''#'')"

fun wfNode :: "node \<Rightarrow> bool" where
  "wfNode (Element ns name attrs props cs) = (isElementName name \<and> list_all wfNode cs)"
| "wfNode _ = True"

text \<open>
  The descriptions without a fragment, without an attribute map and without a comment
  value: texts, comments \<^verbatim>\<open>[$comment]\<close> whose value stringifies to the empty string, and
  elements \<^verbatim>\<open>[name, ...children]\<close> of such descriptions.
\<close>

fun plain :: "jsonml \<Rightarrow> bool" where
  "plain (Prim p) = True"
| "plain (Obj kvs) = False"
| "plain (Arr name rest) =
     (name \<noteq> fragment_name \<and>
      (if name = comment_name then createComment rest = Comment False []
       else isElementName name \<and> list_all plain rest))"

text \<open>The shape a plain description stands for.\<close>

fun descShape :: "jsonml \<Rightarrow> shape" where
  "descShape (Arr name rest) =
     (if name = comment_name then SComment [] else SElement (toLowerCase name) (map descShape rest))"
| "descShape jsonml = SText (nodeValueOf jsonml)"

text \<open>
  The entry point as the specification words it, for comparison with \<open>render\<close>: the children
  of \<^verbatim>\<open>liveRoot\<close> are reconciled against the children of the description (a description
  that is not an array has none).
\<close>

fun renderChildren :: "module \<Rightarrow> jsonml \<Rightarrow> node \<Rightarrow> outcome \<times> mutation list" where
  "renderChildren m (Arr name rest) root = patchElement m (nodeName root) (childrenOf rest) root"
| "renderChildren m jsonml root = patchElement m (nodeName root) [] root"

section \<open>Facts about names and the factory\<close>

lemma lowerChar_asciiUpperChar: "lowerChar (asciiUpperChar c) = lowerChar c"
  unfolding lowerChar_def asciiUpperChar_def Let_def by auto

lemma toLowerCase_asciiUpper: "toLowerCase (asciiUpper s) = toLowerCase s"
  by (simp add: toLowerCase_def asciiUpper_def lowerChar_asciiUpperChar)

lemma svgns_neq_htmlns: "svgns \<noteq> htmlns"
  by (simp add: svgns_def htmlns_def)

lemma htmlns_nonempty: "htmlns \<noteq> []"
  by (simp add: htmlns_def)

lemma sameNodeName_Element:
  "sameNodeName (Arr name rest) (Element ns n attrs props cs) =
     (if ns = Some svgns then n = name else toLowerCase n = toLowerCase name)"
  by (simp add: sameNodeName_def toLowerCase_asciiUpper svgns_neq_htmlns)


lemma applyAttr_Element:
  "\<exists>attrs' props'. applyAttr (Element ns n attrs props cs) kv = Element ns n attrs' props' cs"
proof (cases kv)
  case (Pair k v)
  show ?thesis
  proof (cases k)
    case (KString s)
    with Pair show ?thesis by (cases v) (simp_all add: Let_def)
  next
    case (KSymbol d)
    with Pair show ?thesis by (cases d) simp_all
  qed
qed

lemma foldl_applyAttr_Element:
  "\<exists>attrs' props'. foldl applyAttr (Element ns n attrs props cs) kvs = Element ns n attrs' props' cs"
proof (induction kvs arbitrary: attrs props)
  case Nil
  show ?case by simp
next
  case (Cons kv kvs)
  obtain a p where "applyAttr (Element ns n attrs props cs) kv = Element ns n a p cs"
    using applyAttr_Element by blast
  then show ?case using Cons.IH [of a p] by simp
qed

lemma createElement_Element:
  "\<exists>attrs props.
     createElement m name rest xmlns =
       Element (if elementNs rest xmlns = Some [] then None else elementNs rest xmlns) name
         attrs props
         (concat (map (\<lambda>c. createNode m c (Uri (elementNs rest xmlns))) (childrenOf rest)))"
proof -
  obtain a p where
    "foldl applyAttr (createElementNS (elementNs rest xmlns) name) (attrsOf rest) =
       Element (if elementNs rest xmlns = Some [] then None else elementNs rest xmlns) name a p []"
    unfolding createElementNS_def using foldl_applyAttr_Element by blast
  then show ?thesis by (simp add: createElement.simps Let_def)
qed

section \<open>The Matcher\<close>

text \<open>
  Claim C4.  \<^verbatim>\<open>sameNodeName\<close> holds exactly when the names are equal under the rule of the live
  node's namespace: for a live node of the SVG namespace the node name and the description's
  name are the same string, for any other live node they are the same after lower-casing.
  For a live element this is a comparison of the name it was created with, whatever the
  upper-casing of HTML node names.  A Text description matches every live Text and no live
  Comment, a Comment description matches every live Comment and no live Text, whatever the
  values on either side.
\<close>

theorem sameNodeName_matcher_rule:
  "sameNodeName jsonml node =
     (if namespaceURI node = Uri (Some svgns)
      then nodeName node = nodeNameOf jsonml
      else toLowerCase (nodeName node) = toLowerCase (nodeNameOf jsonml))
   \<and> sameNodeName (Arr name rest) (Element ns n attrs props cs) =
       (if ns = Some svgns then n = name else toLowerCase n = toLowerCase name)
   \<and> sameNodeName (Prim p) (Text v)
   \<and> sameNodeName (Arr comment_name rest) (Comment d v)
   \<and> \<not> sameNodeName (Prim p) (Comment d v)
   \<and> \<not> sameNodeName (Arr comment_name rest) (Text v)"
proof -
  have "sameNodeName (Prim p) (Text v)"
    by (simp add: sameNodeName_def)
  moreover have "sameNodeName (Arr comment_name rest) (Comment d v)"
    by (simp add: sameNodeName_def)
  moreover have "\<not> sameNodeName (Prim p) (Comment d v)"
    by (simp add: sameNodeName_def text_name_def comment_name_def toLowerCase_def lowerChar_def)
  moreover have "\<not> sameNodeName (Arr comment_name rest) (Text v)"
    by (simp add: sameNodeName_def text_name_def comment_name_def toLowerCase_def lowerChar_def)
  ultimately show ?thesis
    using sameNodeName_Element [of name rest ns n attrs props cs]
    by (simp add: sameNodeName_def)
qed

section \<open>Replacement of a mismatched node\<close>



text \<open>
  Claim C10, as amended.  The element that replaces a mismatched live node is built by
  \<^verbatim>\<open>createElement(jsonml)\<close>, with no namespace argument, whatever the namespace of the node it
  replaces: its namespace is the one that the description's own attribute map names with a
  string or \<^verbatim>\<open>null\<close> under \<^verbatim>\<open>xmlns\<close>, and the HTML namespace when the map names none.
  \<^verbatim>\<open>patchNode\<close> instead builds its replacement with the namespace of the node replaced: given
  the same element description and live node, it builds the element in the namespace of
  the live node (the HTML namespace for a live Text or Comment) unless the attribute map
  names one.
\<close>

theorem patchElement_replacement_namespace:
  assumes "\<not> sameNodeName (Arr name rest) node"
  shows "fst (patchElement m name rest node) = ReplacedBy [createElement m name rest Undefined]
         \<and> namespaceURI (createElement m name rest Undefined) =
             Uri (case xmlnsOverride (attrsOf rest) of
                    Some ns \<Rightarrow> (if ns = Some [] then None else ns)
                  | None \<Rightarrow> Some htmlns)
         \<and> (\<not> sameNodeName jsonml node \<longrightarrow>
              fst (patchNode m jsonml node) =
                ReplacedBy (createDelimitedNode m jsonml (namespaceURI node)))
         \<and> (name \<noteq> fragment_name \<and> name \<noteq> comment_name \<longrightarrow>
              fst (patchNode m (Arr name rest) node) =
                ReplacedBy [createElement m name rest (namespaceURI node)]
              \<and> namespaceURI (createElement m name rest (namespaceURI node)) =
                  Uri (case xmlnsOverride (attrsOf rest) of
                         Some ns \<Rightarrow> (if ns = Some [] then None else ns)
                       | None \<Rightarrow>
                           (if defaultNs (namespaceURI node) = Some [] then None
                            else defaultNs (namespaceURI node))))"
proof -
  have ns: "elementNs rest xmlns =
      (case xmlnsOverride (attrsOf rest) of Some ns \<Rightarrow> ns | None \<Rightarrow> defaultNs xmlns)"
    for xmlns
    by (induction rest rule: attrsOf.induct) simp_all
  have built: "namespaceURI (createElement m name rest xmlns) =
      Uri (case xmlnsOverride (attrsOf rest) of
             Some ns \<Rightarrow> (if ns = Some [] then None else ns)
           | None \<Rightarrow> (if defaultNs xmlns = Some [] then None else defaultNs xmlns))"
    for xmlns
    using createElement_Element [of m name rest xmlns] unfolding ns
    by (auto split: option.splits)
  have "fst (patchElement m name rest node) = ReplacedBy [createElement m name rest Undefined]"
    using assms by (simp add: patchElement.simps Let_def)
  moreover have "namespaceURI (createElement m name rest Undefined) =
      Uri (case xmlnsOverride (attrsOf rest) of
             Some ns \<Rightarrow> (if ns = Some [] then None else ns)
           | None \<Rightarrow> Some htmlns)"
    using built [of Undefined] htmlns_nonempty by (simp split: option.splits)
  moreover have "fst (patchNode m jsonml node) =
      ReplacedBy (createDelimitedNode m jsonml (namespaceURI node))"
    if "\<not> sameNodeName jsonml node"
    using that by (simp add: patchNode_def Let_def)
  moreover have "fst (patchNode m (Arr name rest) node) =
      ReplacedBy [createElement m name rest (namespaceURI node)]"
    if "name \<noteq> fragment_name \<and> name \<noteq> comment_name"
    using that assms by (simp add: patchNode_def Let_def createNode.simps)
  ultimately show ?thesis using built [of "namespaceURI node"] by blast
qed

theorem patchElement_replacement_namespace_witness:
  "\<not> sameNodeName (Arr ''circle'' []) (Element (Some svgns) ''rect'' [] [] [])
   \<and> fst (patchElement IndexJs ''circle'' [] (Element (Some svgns) ''rect'' [] [] [])) =
       ReplacedBy [Element (Some htmlns) ''circle'' [] [] []]
   \<and> namespaceURI (createElement IndexJs ''circle'' [] Undefined) = Uri (Some htmlns)
   \<and> \<not> sameNodeName (Prim (PString ''t'')) (Element (Some svgns) ''rect'' [] [] [])
   \<and> fst (patchNode IndexJs (Prim (PString ''t'')) (Element (Some svgns) ''rect'' [] [] [])) =
       ReplacedBy [Text ''t'']
   \<and> ''circle'' \<noteq> fragment_name \<and> ''circle'' \<noteq> comment_name
   \<and> fst (patchNode IndexJs (Arr ''circle'' []) (Element (Some svgns) ''rect'' [] [] [])) =
       ReplacedBy [Element (Some svgns) ''circle'' [] [] []]
   \<and> namespaceURI (createElement IndexJs ''circle'' [] (Uri (Some svgns))) = Uri (Some svgns)"
proof -
  have mismatch: "\<not> sameNodeName (Arr ''circle'' []) (Element (Some svgns) ''rect'' [] [] [])"
    by code_simp
  have other: "\<not> sameNodeName (Prim (PString ''t'')) (Element (Some svgns) ''rect'' [] [] [])"
    by code_simp
  have names: "''circle'' \<noteq> fragment_name \<and> ''circle'' \<noteq> comment_name"
    by code_simp
  have html: "createElement IndexJs ''circle'' [] Undefined =
        Element (Some htmlns) ''circle'' [] [] []"
    by code_simp
  have svg: "createElement IndexJs ''circle'' [] (Uri (Some svgns)) =
        Element (Some svgns) ''circle'' [] [] []"
    by code_simp
  have tnode: "createNode IndexJs (Prim (PString ''t'')) (Uri (Some svgns)) = [Text ''t'']"
    by code_simp
  show ?thesis
    using mismatch other names
      patchElement_replacement_namespace [OF mismatch, of IndexJs "Prim (PString ''t'')"]
    by (simp add: html svg tnode)
qed

text \<open>
  Claim C10 as stated fails: the description \<^verbatim>\<open>['circle', {xmlns: svgns}]\<close> over a mismatched
  SVG \<^verbatim>\<open>rect\<close> is rebuilt in the SVG namespace that its attribute map names, not in the
  HTML namespace.
\<close>

theorem patchElement_replacement_namespace_counterexample:
  "\<not> sameNodeName (Arr ''circle'' [Obj [(KString ''xmlns'', PString svgns)]])
        (Element (Some svgns) ''rect'' [] [] [])
   \<and> fst (patchElement IndexJs ''circle'' [Obj [(KString ''xmlns'', PString svgns)]]
        (Element (Some svgns) ''rect'' [] [] [])) =
       ReplacedBy [Element (Some svgns) ''circle'' [(''xmlns'', svgns)] [] []]
   \<and> Some svgns \<noteq> Some htmlns"
  by code_simp

section \<open>The loops on descriptions without fragments\<close>

lemma sameNodeName_own_name: "sameNodeName (Arr (nodeName root) rest) root"
  by (simp add: sameNodeName_def)

lemma append_setChildNodes: "append root new = setChildNodes root (childNodes root @ new)"
  by (cases root) simp_all

lemma patchElement_match_kept:
  assumes "sameNodeName (Arr name rest) root"
  shows "\<exists>cs'. fst (patchElement m name rest root) = InPlace (setChildNodes root cs')"
  using assms
  by (auto simp: patchElement.simps append_setChildNodes Let_def split: list.splits prod.splits)

lemma createNode_single:
  assumes "\<not> isDocumentFragment jsonml"
  shows "\<exists>n. createNode m jsonml xmlns = [n]"
  using assms by (cases jsonml) (simp_all add: createNode.simps)

lemma createDelimitedNode_plain:
  assumes "\<not> isDocumentFragment jsonml"
  shows "createDelimitedNode m jsonml xmlns = createNode m jsonml xmlns"
  using assms by (cases jsonml) simp_all

lemma replaceAt_single: "k < length cs \<Longrightarrow> replaceAt k [n] cs = cs[k := n]"
  by (simp add: replaceAt_def upd_conv_take_nth_drop)

lemma patchNode_single:
  assumes "\<not> isDocumentFragment jsonml"
  shows "\<exists>n log. patchNode m jsonml node = (InPlace n, log)
                \<or> patchNode m jsonml node = (ReplacedBy [n], log)"
  using assms createNode_single [OF assms, of m "namespaceURI node"]
  by (auto simp: patchNode_def Let_def createDelimitedNode_plain)

lemma patchElement_single:
  "\<exists>n log. patchElement m name rest node = (InPlace n, log)
          \<or> patchElement m name rest node = (ReplacedBy [n], log)"
  by (auto simp: patchElement.simps Let_def split: list.splits prod.splits)

lemma place_single:
  assumes "k < length cs"
    and "r = (InPlace n, log) \<or> r = (ReplacedBy [n], log)"
    and "nxt = (if Suc k < length cs then Some (Suc k) else None)"
    and "Suc k < length cs \<longrightarrow> w = Some (Suc k)"
  shows "\<exists>w'. place k r cs w nxt = (cs[k := n], w', nxt, log)
              \<and> (Suc k < length cs \<longrightarrow> w' = Some (Suc k))"
  using assms by (auto simp: replaceAt_single)

lemma patchCurrent_single:
  assumes "\<not> isDocumentFragment jsonml" and "k < length cs"
  shows "\<exists>n w' log.
           patched m jsonml (cs ! k) = [n]
           \<and> patchCurrent m jsonml k (cs, Some k) =
             (cs[k := n], w', (if Suc k < length cs then Some (Suc k) else None), log)
           \<and> (Suc k < length cs \<longrightarrow> w' = Some (Suc k))"
proof -
  let ?nxt = "if Suc k < length cs then Some (Suc k) else None"
  let ?w1 = "if Suc k < length cs then Some (Suc k) else Some k"
  have walk: "walkerNextSibling cs (Some k) = (?w1, ?nxt)" by simp
  have w1: "Suc k < length cs \<longrightarrow> ?w1 = Some (Suc k)" by simp
  obtain r where r: "patchCurrent m jsonml k (cs, Some k) = place k r cs ?w1 ?nxt"
    and p: "patched m jsonml (cs ! k) = nodesOf (fst r)"
    and single: "\<exists>n log. r = (InPlace n, log) \<or> r = (ReplacedBy [n], log)"
  proof (cases jsonml)
    case (Prim p)
    show ?thesis
      using that [of "patchNode m jsonml (cs ! k)"] patchNode_single [OF assms(1)] Prim
      by (simp add: patchCurrent.simps patched_def del: walkerNextSibling.simps add: walk)
  next
    case (Obj kvs)
    show ?thesis
      using that [of "patchNode m jsonml (cs ! k)"] patchNode_single [OF assms(1)] Obj
      by (simp add: patchCurrent.simps patched_def del: walkerNextSibling.simps add: walk)
  next
    case (Arr name rest)
    show ?thesis
    proof (cases "name = comment_name")
      case True
      show ?thesis
        using that [of "patchNode m jsonml (cs ! k)"] patchNode_single [OF assms(1)] Arr True assms(1)
        by (simp add: patchCurrent.simps patched_def del: walkerNextSibling.simps add: walk)
    next
      case False
      show ?thesis
        using that [of "patchElement m name rest (cs ! k)"] patchElement_single Arr False assms(1)
        by (simp add: patchCurrent.simps patched_def del: walkerNextSibling.simps add: walk)
    qed
  qed
  from single obtain n log where n: "r = (InPlace n, log) \<or> r = (ReplacedBy [n], log)" by blast
  then have "patched m jsonml (cs ! k) = [n]" using p by auto
  with place_single [OF assms(2) n refl w1] r show ?thesis by metis
qed

lemma elementLoop_exhausted:
  assumes "list_all (\<lambda>d. \<not> isDocumentFragment d) ds"
  shows "\<exists>log'. foldl (elementStep m xmlns) (cs, w, None, log) ds =
           (cs @ align m xmlns ds [], w, None, log')"
  using assms
proof (induction ds arbitrary: cs log)
  case Nil
  show ?case by simp
next
  case (Cons d ds)
  then have d: "\<not> isDocumentFragment d" and ds: "list_all (\<lambda>d. \<not> isDocumentFragment d) ds"
    by simp_all
  have "elementStep m xmlns (cs, w, None, log) d =
      (cs @ createNode m d xmlns, w, None, log @ appended (createNode m d xmlns))"
    by (simp add: elementStep.simps createDelimitedNode_plain [OF d] Let_def)
  then show ?case
    using Cons.IH [OF ds, of "cs @ createNode m d xmlns" "log @ appended (createNode m d xmlns)"]
    by auto
qed

lemma elementLoop_align:
  assumes "list_all (\<lambda>d. \<not> isDocumentFragment d) ds" and "k < length cs"
  shows "\<exists>cs' w' cur' log'.
           foldl (elementStep m xmlns) (cs, Some k, Some k, log) ds = (cs', w', cur', log')
           \<and> fst (trim cur' cs') = take k cs @ align m xmlns ds (drop k cs)"
  using assms
proof (induction ds arbitrary: cs k log)
  case Nil
  show ?case by simp
next
  case (Cons d ds)
  then have d: "\<not> isDocumentFragment d" and ds: "list_all (\<lambda>d. \<not> isDocumentFragment d) ds"
    by simp_all
  from patchCurrent_single [OF d Cons.prems(2), of m]
  obtain n w' log' where n: "patched m d (cs ! k) = [n]"
    and step: "patchCurrent m d k (cs, Some k) =
        (cs[k := n], w', (if Suc k < length cs then Some (Suc k) else None), log')"
    and w': "Suc k < length cs \<longrightarrow> w' = Some (Suc k)"
    by blast
  have dropk: "drop k cs = cs ! k # drop (Suc k) cs"
    using Cons.prems(2) by (simp add: Cons_nth_drop_Suc)
  show ?case
  proof (cases "Suc k < length cs")
    case True
    then have st: "elementStep m xmlns (cs, Some k, Some k, log) d =
        (cs[k := n], Some (Suc k), Some (Suc k), log @ log')"
      using step w' by (simp add: elementStep.simps)
    have len: "Suc k < length (cs[k := n])" using True by simp
    from Cons.IH [OF ds len, of "log @ log'"] st n dropk True
    show ?thesis by (auto simp: take_Suc_conv_app_nth)
  next
    case False
    then have st: "elementStep m xmlns (cs, Some k, Some k, log) d =
        (cs[k := n], w', None, log @ log')"
      using step by (simp add: elementStep.simps)
    have all: "drop (Suc k) cs = []" using False by simp
    have upd: "cs[k := n] = take k cs @ [n]"
      using False Cons.prems(2) by (simp add: upd_conv_take_nth_drop)
    from elementLoop_exhausted [OF ds, of m xmlns "cs[k := n]" w' "log @ log'"] st n dropk all upd
    show ?thesis by auto
  qed
qed

lemma patchElement_children:
  assumes "sameNodeName (Arr name rest) root"
    and "list_all (\<lambda>d. \<not> isDocumentFragment d) (childrenOf rest)"
  shows "fst (patchElement m name rest root) =
           InPlace (setChildNodes root
             (case childNodes root of
                [] \<Rightarrow> createDocumentFragment m rest (namespaceURI root)
              | c # cs \<Rightarrow> align m (namespaceURI root) (childrenOf rest) (c # cs)))"
proof (cases "childNodes root")
  case Nil
  then show ?thesis
    using assms(1) by (simp add: patchElement.simps append_setChildNodes Let_def)
next
  case (Cons c cs)
  have "0 < length (c # cs)" by simp
  from elementLoop_align [OF assms(2) this, of m "namespaceURI root" "[]"]
  obtain cs' w' cur' log' where
    loop: "foldl (elementStep m (namespaceURI root)) (c # cs, Some 0, Some 0, []) (childrenOf rest)
             = (cs', w', cur', log')"
    and res: "fst (trim cur' cs') = align m (namespaceURI root) (childrenOf rest) (c # cs)"
    by auto
  show ?thesis
    using assms(1) Cons loop res
    by (auto simp: patchElement.simps split: prod.splits)
qed

lemma patchElement_children_Element:
  assumes "sameNodeName (Arr name rest) (Element ns n attrs props cs)"
    and "list_all (\<lambda>d. \<not> isDocumentFragment d) (childrenOf rest)"
  shows "fst (patchElement m name rest (Element ns n attrs props cs)) =
           InPlace (Element ns n attrs props
             (case cs of
                [] \<Rightarrow> createDocumentFragment m rest (Uri ns)
              | c # cs' \<Rightarrow> align m (Uri ns) (childrenOf rest) (c # cs')))"
  using patchElement_children [OF assms, of m] by (simp cong: list.case_cong)

lemma shapeOf_Element:
  "shapeOf (Element ns name attrs props cs) = SElement (toLowerCase name) (map shapeOf cs)"
  by (simp add: toLowerCase_asciiUpper)

lemma lowerChar_hash: "lowerChar c = CHR ''#'' \<Longrightarrow> c = CHR ''#''"
  by (auto simp: lowerChar_def Let_def split: if_splits
      dest: arg_cong [where f = "of_char :: char \<Rightarrow> nat"])

lemma isElementName_not_kind:
  assumes "isElementName name"
  shows "toLowerCase name \<noteq> text_name" and "toLowerCase name \<noteq> comment_name"
    and "name \<noteq> text_name" and "name \<noteq> comment_name"
  using assms lowerChar_hash
  by (cases name; auto simp: isElementName_def toLowerCase_def text_name_def comment_name_def)+

lemma toLowerCase_nodeName:
  "toLowerCase (nodeName (Element ns n attrs props cs)) = toLowerCase n"
  by (simp add: toLowerCase_asciiUpper)

lemma toLowerCase_kind_names:
  "toLowerCase text_name = text_name" "toLowerCase comment_name = comment_name"
  by (simp_all add: toLowerCase_def lowerChar_def text_name_def comment_name_def)

lemma kind_names_distinct: "text_name \<noteq> comment_name"
  by (simp add: text_name_def comment_name_def)

lemma element_never_kind:
  assumes "isElementName n"
    and "nodeNameOf jsonml = text_name \<or> nodeNameOf jsonml = comment_name"
  shows "\<not> sameNodeName jsonml (Element ns n attrs props cs)"
proof (cases "ns = Some svgns")
  case True
  then have "nodeName (Element ns n attrs props cs) = n"
    using svgns_neq_htmlns by simp
  then show ?thesis
    using True assms isElementName_not_kind(3,4) [OF assms(1)]
    by (auto simp: sameNodeName_def)
next
  case False
  then have "sameNodeName jsonml (Element ns n attrs props cs) =
      (toLowerCase n = toLowerCase (nodeNameOf jsonml))"
    unfolding sameNodeName_def toLowerCase_nodeName by simp
  then show ?thesis
    using assms(2) isElementName_not_kind(1,2) [OF assms(1)] toLowerCase_kind_names
    by auto
qed

lemma matched_text:
  assumes "sameNodeName jsonml c" and "nodeNameOf jsonml = text_name" and "wfNode c"
  shows "\<exists>v. c = Text v"
proof (cases c)
  case (Element ns n attrs props cs)
  then have "isElementName n" using assms(3) by simp
  from element_never_kind [OF this, of jsonml ns attrs props cs] assms(1,2) Element
  show ?thesis by simp
next
  case (Text v)
  then show ?thesis by simp
next
  case (Comment d v)
  then show ?thesis
    using assms(1,2) toLowerCase_kind_names kind_names_distinct
    by (simp add: sameNodeName_def)
qed

lemma matched_comment:
  assumes "sameNodeName jsonml c" and "nodeNameOf jsonml = comment_name" and "wfNode c"
  shows "\<exists>d v. c = Comment d v"
proof (cases c)
  case (Element ns n attrs props cs)
  then have "isElementName n" using assms(3) by simp
  from element_never_kind [OF this, of jsonml ns attrs props cs] assms(1,2) Element
  show ?thesis by simp
next
  case (Text v)
  then show ?thesis
    using assms(1,2) toLowerCase_kind_names kind_names_distinct
    by (simp add: sameNodeName_def)
next
  case (Comment d v)
  then show ?thesis by simp
qed

lemma matched_element:
  assumes "sameNodeName (Arr name rest) c" and "isElementName name"
  shows "\<exists>ns n attrs props cs. c = Element ns n attrs props cs \<and> toLowerCase n = toLowerCase name"
proof (cases c)
  case (Element ns n attrs props cs)
  then show ?thesis
    using assms(1) by (auto simp: sameNodeName_Element split: if_splits)
next
  case (Text v)
  then show ?thesis
    using assms(1) isElementName_not_kind(1) [OF assms(2)] toLowerCase_kind_names
    by (simp add: sameNodeName_def)
next
  case (Comment d v)
  then show ?thesis
    using assms(1) isElementName_not_kind(2) [OF assms(2)] toLowerCase_kind_names
    by (simp add: sameNodeName_def)
qed

lemma concat_singletons:
  assumes "\<And>x. x \<in> set xs \<Longrightarrow> map g (f x) = [h x]"
  shows "map g (concat (map f xs)) = map h xs"
  using assms by (induction xs) simp_all

lemma plain_children: "list_all plain rest \<Longrightarrow> childrenOf rest = rest"
  by (induction rest rule: childrenOf.induct) simp_all

lemma plain_not_fragment: "plain d \<Longrightarrow> \<not> isDocumentFragment d"
  by (cases d) simp_all

lemma createNode_shape:
  assumes "plain d"
  shows "map shapeOf (createNode m d xmlns) = [descShape d]"
  using assms
proof (induction d arbitrary: xmlns)
  case (Prim p)
  show ?case by (simp add: createNode.simps createTextNode_def)
next
  case (Obj kvs)
  then show ?case by simp
next
  case (Arr name rest)
  show ?case
  proof (cases "name = comment_name")
    case True
    then show ?thesis
      using Arr.prems by (simp add: createNode.simps)
  next
    case False
    then have rest: "list_all plain rest" and nf: "name \<noteq> fragment_name"
      using Arr.prems by simp_all
    obtain attrs props where el: "createElement m name rest xmlns =
        Element (if elementNs rest xmlns = Some [] then None else elementNs rest xmlns) name
          attrs props
          (concat (map (\<lambda>c. createNode m c (Uri (elementNs rest xmlns))) (childrenOf rest)))"
      using createElement_Element by blast
    have "map shapeOf (concat (map (\<lambda>c. createNode m c (Uri (elementNs rest xmlns))) rest))
        = map descShape rest"
    proof (rule concat_singletons)
      fix x assume "x \<in> set rest"
      then show "map shapeOf (createNode m x (Uri (elementNs rest xmlns))) = [descShape x]"
        using Arr.IH rest by (simp add: list_all_iff)
    qed
    then show ?thesis
      using False nf el plain_children [OF rest]
      by (simp add: createNode.simps shapeOf_Element del: shapeOf.simps)
  qed
qed

lemma align_shape:
  assumes "\<And>d c. d \<in> set ds \<Longrightarrow> wfNode c \<Longrightarrow> map shapeOf (patched m d c) = [descShape d]"
    and "list_all plain ds" and "list_all wfNode live"
  shows "map shapeOf (align m xmlns ds live) = map descShape ds"
  using assms
proof (induction ds arbitrary: live)
  case Nil
  show ?case by simp
next
  case (Cons d ds)
  have IH: "map shapeOf (align m xmlns ds live') = map descShape ds" if "list_all wfNode live'" for live'
    using Cons.IH [of live'] Cons.prems that by simp
  show ?case
  proof (cases live)
    case Nil
    then show ?thesis
      using IH [of "[]"] createNode_shape [of d m xmlns] Cons.prems(2) by simp
  next
    case (Cons c cs)
    then have "wfNode c" and "list_all wfNode cs" using Cons.prems(3) by simp_all
    then show ?thesis
      using IH [of cs] Cons.prems(1) [of d c] Cons by simp
  qed
qed

lemma patched_shape:
  assumes "plain d" and "wfNode c"
  shows "map shapeOf (patched m d c) = [descShape d]"
  using assms
proof (induction d arbitrary: c)
  case (Prim p)
  show ?case
  proof (cases "sameNodeName (Prim p) c")
    case True
    then obtain v where "c = Text v" using matched_text [of "Prim p" c] Prim.prems by auto
    then show ?thesis using True by (simp add: patched_def patchNode_def Let_def)
  next
    case False
    then show ?thesis
      by (simp add: patched_def patchNode_def Let_def createNode.simps createTextNode_def)
  qed
next
  case (Obj kvs)
  then show ?case by simp
next
  case (Arr name rest)
  show ?case
  proof (cases "name = comment_name")
    case True
    note is_comment = True
    then have "value": "createComment rest = Comment False []" using Arr.prems by simp
    show ?thesis
    proof (cases "sameNodeName (Arr name rest) c")
      case True
      then obtain d v where "c = Comment d v"
        using matched_comment [of "Arr name rest" c] Arr.prems is_comment by auto
      then show ?thesis using True is_comment by (simp add: patched_def patchNode_def Let_def)
    next
      case False
      then show ?thesis
        using is_comment "value" Arr.prems
        by (simp add: patched_def patchNode_def Let_def createNode.simps)
    qed
  next
    case False
    then have rest: "list_all plain rest" and nf: "name \<noteq> fragment_name"
      and en: "isElementName name"
      using Arr.prems by simp_all
    have kids: "childrenOf rest = rest" using plain_children [OF rest] .
    have nofrag: "list_all (\<lambda>d. \<not> isDocumentFragment d) (childrenOf rest)"
      using rest plain_not_fragment by (simp add: list_all_iff kids)
    have p: "patched m (Arr name rest) c = nodesOf (fst (patchElement m name rest c))"
      using False by (simp add: patched_def)
    show ?thesis
    proof (cases "sameNodeName (Arr name rest) c")
      case True
      then obtain ns n attrs props cs where c: "c = Element ns n attrs props cs"
        and n: "toLowerCase n = toLowerCase name"
        using matched_element [OF _ en] by blast
      have wf: "list_all wfNode cs" using Arr.prems(2) c by simp
      have "map shapeOf (case cs of
           [] \<Rightarrow> createDocumentFragment m rest (Uri ns)
         | c' # cs' \<Rightarrow> align m (Uri ns) rest (c' # cs')) = map descShape rest"
      proof (cases cs)
        case Nil
        have "map shapeOf (concat (map (\<lambda>c. createNode m c x) rest)) = map descShape rest" for x
        proof (rule concat_singletons)
          fix d assume "d \<in> set rest"
          then show "map shapeOf (createNode m d x) = [descShape d]"
            using createNode_shape rest by (simp add: list_all_iff)
        qed
        then show ?thesis
          using Nil by (cases m) (simp_all add: createDocumentFragment.simps)
      next
        case (Cons c' cs')
        have "map shapeOf (align m (Uri ns) rest cs) = map descShape rest"
        proof (rule align_shape [OF _ rest wf])
          fix d c assume "d \<in> set rest" and "wfNode c"
          then show "map shapeOf (patched m d c) = [descShape d]"
            using Arr.IH rest by (simp add: list_all_iff)
        qed
        then show ?thesis using Cons by simp
      qed
      moreover have "sameNodeName (Arr name rest) (Element ns n attrs props cs)"
        using True c by simp
      ultimately show ?thesis
        using patchElement_children_Element [where m = m, OF _ nofrag] n p False
        unfolding c kids
        by (simp add: shapeOf_Element del: shapeOf.simps)
    next
      case False
      have "map shapeOf (createNode m (Arr name rest) Undefined) = [descShape (Arr name rest)]"
        using createNode_shape [OF Arr.prems(1)] .
      then show ?thesis
        using False p nf \<open>name \<noteq> comment_name\<close>
        by (simp add: patchElement.simps createNode.simps Let_def del: descShape.simps)
    qed
  qed
qed

lemma patched_single:
  assumes "\<not> isDocumentFragment jsonml"
  shows "\<exists>n. patched m jsonml c = [n]"
proof (cases jsonml)
  case (Prim p)
  then show ?thesis
    using patchNode_single [OF assms, of m c] by (auto simp: patched_def)
next
  case (Obj kvs)
  then show ?thesis
    using patchNode_single [OF assms, of m c] by (auto simp: patched_def)
next
  case (Arr name rest)
  then show ?thesis
    using patchNode_single [OF assms, of m c] patchElement_single [of m name rest c]
    by (auto simp: patched_def)
qed

lemma align_length:
  assumes "list_all (\<lambda>d. \<not> isDocumentFragment d) ds"
  shows "length (align m xmlns ds live) = length ds"
  using assms
proof (induction ds arbitrary: live)
  case Nil
  show ?case by simp
next
  case (Cons d ds)
  then have d: "\<not> isDocumentFragment d" by simp
  obtain n where n: "createNode m d xmlns = [n]" using createNode_single [OF d] by blast
  show ?case
  proof (cases live)
    case Nil
    then show ?thesis using Cons n by simp
  next
    case (Cons c cs)
    obtain n' where "patched m d c = [n']" using patched_single [OF d] by blast
    then show ?thesis using Cons Cons.IH [of cs] Cons.prems by simp
  qed
qed

lemma patchElement_trims_without_fragment:
  assumes "sameNodeName (Arr name rest) (Element ns n attrs props (c # cs))"
    and "list_all (\<lambda>d. \<not> isDocumentFragment d) (childrenOf rest)"
  shows "\<exists>cs'. fst (patchElement m name rest (Element ns n attrs props (c # cs))) =
                 InPlace (Element ns n attrs props cs')
               \<and> length cs' = length (childrenOf rest)"
  using patchElement_children_Element [OF assms, of m] align_length [OF assms(2)]
  by simp

lemma patchNode_text_write_minimal:
  "patchNode m (Prim p) (Text v) =
     (if v = nodeValueOf (Prim p) then (InPlace (Text v), [])
      else (InPlace (Text (nodeValueOf (Prim p))), [ValueWritten (Text v) (nodeValueOf (Prim p))]))"
  by (simp add: patchNode_def sameNodeName_def Let_def)

section \<open>The entry point\<close>

text \<open>
  Claim C3, as amended.  \<^verbatim>\<open>render(description, liveRoot)\<close> keeps \<^verbatim>\<open>liveRoot\<close>: the node is
  not replaced, and only its list of children changes.  The children are reconciled against
  the one-entry sequence that holds the description itself, not against the description's
  children: for a description that is neither a fragment nor an attribute map, \<^verbatim>\<open>liveRoot\<close>
  is left with exactly one child, which is the description built fresh when \<^verbatim>\<open>liveRoot\<close> had
  no child, and the first live child patched against the description otherwise.
\<close>

theorem render_keeps_root_patches_description:
  "(\<exists>cs'. fst (render m jsonml root) = InPlace (setChildNodes root cs'))
   \<and> (\<not> isDocumentFragment jsonml \<and> \<not> isNamedNodeMap jsonml \<longrightarrow>
        (\<exists>n. fst (render m jsonml root) = InPlace (setChildNodes root [n])
            \<and> (case childNodes root of
                  [] \<Rightarrow> createDocumentFragment m [jsonml] (namespaceURI root)
                | c # cs \<Rightarrow> patched m jsonml c) = [n]))"
proof -
  have kept: "\<exists>cs'. fst (render m jsonml root) = InPlace (setChildNodes root cs')"
    unfolding render_def using patchElement_match_kept [OF sameNodeName_own_name] .
  have one: "\<exists>n. fst (render m jsonml root) = InPlace (setChildNodes root [n])
            \<and> (case childNodes root of
                  [] \<Rightarrow> createDocumentFragment m [jsonml] (namespaceURI root)
                | c # cs \<Rightarrow> patched m jsonml c) = [n]"
    if nf: "\<not> isDocumentFragment jsonml" and nm: "\<not> isNamedNodeMap jsonml"
  proof -
    have kids: "childrenOf [jsonml] = [jsonml]" using nm by (cases jsonml) simp_all
    have nofrag: "list_all (\<lambda>d. \<not> isDocumentFragment d) (childrenOf [jsonml])"
      using nf kids by simp
    have res: "fst (render m jsonml root) =
        InPlace (setChildNodes root
          (case childNodes root of
             [] \<Rightarrow> createDocumentFragment m [jsonml] (namespaceURI root)
           | c # cs \<Rightarrow> patched m jsonml c))"
      using patchElement_children [where m = m and root = root, OF sameNodeName_own_name nofrag]
      unfolding render_def kids by (simp cong: list.case_cong)
    have "\<exists>n. (case childNodes root of
                  [] \<Rightarrow> createDocumentFragment m [jsonml] (namespaceURI root)
                | c # cs \<Rightarrow> patched m jsonml c) = [n]"
    proof (cases "childNodes root")
      case Nil
      obtain n1 where "createNode m jsonml Undefined = [n1]"
        using createNode_single [OF nf] by blast
      moreover obtain n2 where "createNode m jsonml (namespaceURI root) = [n2]"
        using createNode_single [OF nf] by blast
      ultimately show ?thesis
        using Nil by (cases m) (simp_all add: createDocumentFragment.simps)
    next
      case (Cons c cs)
      then show ?thesis using patched_single [OF nf, of m c] by simp
    qed
    then show ?thesis using res by auto
  qed
  from kept one show ?thesis by blast
qed

theorem render_keeps_root_patches_description_witness:
  "\<not> isDocumentFragment (Arr ''span'' [Prim (PString ''new text'')])
   \<and> \<not> isNamedNodeMap (Arr ''span'' [Prim (PString ''new text'')])
   \<and> fst (render IndexJs (Arr ''span'' [Prim (PString ''new text'')])
        (Element (Some htmlns) ''div'' [] [] [Element (Some htmlns) ''span'' [] [] [Text ''old'']])) =
       InPlace (Element (Some htmlns) ''div'' [] []
         [Element (Some htmlns) ''span'' [] [] [Text ''new text'']])"
proof -
  have nf: "\<not> isDocumentFragment (Arr ''span'' [Prim (PString ''new text'')])"
    by code_simp
  have nm: "\<not> isNamedNodeMap (Arr ''span'' [Prim (PString ''new text'')])"
    by simp
  have ev: "patched IndexJs (Arr ''span'' [Prim (PString ''new text'')])
        (Element (Some htmlns) ''span'' [] [] [Text ''old'']) =
      [Element (Some htmlns) ''span'' [] [] [Text ''new text'']]"
    by code_simp
  show ?thesis
    using nf nm ev
      render_keeps_root_patches_description [of IndexJs "Arr ''span'' [Prim (PString ''new text'')]"
        "Element (Some htmlns) ''div'' [] [] [Element (Some htmlns) ''span'' [] [] [Text ''old'']]"]
    by auto
qed

text \<open>
  Claim C3 as stated fails: with the children of \<^verbatim>\<open>liveRoot\<close> reconciled against the children
  of the description \<^verbatim>\<open>['span', 'new text']\<close>, the live \<^verbatim>\<open><span>\<close> would be replaced by a text;
  the code keeps the \<^verbatim>\<open><span>\<close> and rewrites the text inside it.
\<close>

theorem render_children_counterexample:
  "render IndexJs (Arr ''span'' [Prim (PString ''new text'')])
     (Element (Some htmlns) ''div'' [] [] [Element (Some htmlns) ''span'' [] [] [Text ''old'']])
   \<noteq> renderChildren IndexJs (Arr ''span'' [Prim (PString ''new text'')])
     (Element (Some htmlns) ''div'' [] [] [Element (Some htmlns) ''span'' [] [] [Text ''old'']])
   \<and> fst (render IndexJs (Arr ''span'' [Prim (PString ''new text'')])
        (Element (Some htmlns) ''div'' [] [] [Element (Some htmlns) ''span'' [] [] [Text ''old'']])) =
       InPlace (Element (Some htmlns) ''div'' [] []
         [Element (Some htmlns) ''span'' [] [] [Text ''new text'']])
   \<and> fst (renderChildren IndexJs (Arr ''span'' [Prim (PString ''new text'')])
        (Element (Some htmlns) ''div'' [] [] [Element (Some htmlns) ''span'' [] [] [Text ''old'']])) =
       InPlace (Element (Some htmlns) ''div'' [] [] [Text ''new text''])"
  by code_simp

section \<open>Convergence\<close>

text \<open>
  Claim C1, as amended.  For a description without fragments, attribute maps and comment
  values, and a live root element of a well-formed tree, one \<^verbatim>\<open>render\<close> keeps the root and
  leaves it with children of the shape and values of the nodes that \<^verbatim>\<open>createNode\<close> builds
  from the description, whatever namespace \<^verbatim>\<open>createNode\<close> is given.
\<close>

theorem render_converges_plain:
  assumes "plain jsonml" and "isElement root" and "wfNode root"
  shows "\<exists>cs'. fst (render m jsonml root) = InPlace (setChildNodes root cs')
               \<and> map shapeOf cs' = map shapeOf (createNode m jsonml xmlns)"
proof -
  obtain ns n attrs props cs where root: "root = Element ns n attrs props cs"
    using assms(2) by (cases root) simp_all
  have wf: "list_all wfNode cs" using assms(3) root by simp
  have kids: "childrenOf [jsonml] = [jsonml]" using assms(1) by (cases jsonml) simp_all
  have nofrag: "list_all (\<lambda>d. \<not> isDocumentFragment d) (childrenOf [jsonml])"
    using plain_not_fragment [OF assms(1)] kids by simp
  let ?cs' = "case cs of
      [] \<Rightarrow> createDocumentFragment m [jsonml] (Uri ns)
    | c # cs' \<Rightarrow> align m (Uri ns) [jsonml] (c # cs')"
  have "sameNodeName (Arr (nodeName root) [jsonml]) (Element ns n attrs props cs)"
    using sameNodeName_own_name [of root] root by simp
  from patchElement_children_Element [where m = m, OF this nofrag]
  have res: "fst (render m jsonml root) = InPlace (setChildNodes root ?cs')"
    unfolding render_def root kids by simp
  have "map shapeOf ?cs' = [descShape jsonml]"
  proof (cases cs)
    case Nil
    then show ?thesis
      using createNode_shape [OF assms(1), of m]
      by (cases m) (simp_all add: createDocumentFragment.simps)
  next
    case (Cons c cs')
    then have "wfNode c" using wf by simp
    then show ?thesis
      using patched_shape [OF assms(1), of c m] Cons by simp
  qed
  then show ?thesis
    using res createNode_shape [OF assms(1), of m xmlns] by auto
qed

theorem render_converges_plain_witness:
  "plain (Arr ''span'' [Prim (PString ''new text'')])
   \<and> isElement (Element (Some htmlns) ''div'' [] [] [Element (Some svgns) ''rect'' [] [] [], Text ''t''])
   \<and> wfNode (Element (Some htmlns) ''div'' [] [] [Element (Some svgns) ''rect'' [] [] [], Text ''t''])
   \<and> (\<exists>cs'. fst (render IndexJs (Arr ''span'' [Prim (PString ''new text'')])
                (Element (Some htmlns) ''div'' [] []
                   [Element (Some svgns) ''rect'' [] [] [], Text ''t''])) =
              InPlace (setChildNodes
                (Element (Some htmlns) ''div'' [] []
                   [Element (Some svgns) ''rect'' [] [] [], Text ''t'']) cs')
            \<and> map shapeOf cs' =
              map shapeOf (createNode IndexJs (Arr ''span'' [Prim (PString ''new text'')]) Undefined))"
proof -
  have p: "plain (Arr ''span'' [Prim (PString ''new text'')])"
    by code_simp
  have e: "isElement (Element (Some htmlns) ''div'' [] []
      [Element (Some svgns) ''rect'' [] [] [], Text ''t''])"
    by simp
  have w: "wfNode (Element (Some htmlns) ''div'' [] []
      [Element (Some svgns) ''rect'' [] [] [], Text ''t''])"
    by code_simp
  show ?thesis
    using p e w render_converges_plain [OF p e w, of IndexJs Undefined] by blast
qed

text \<open>
  Claim C1 as stated fails: patched against a live root that holds one text, the fragment
  \<^verbatim>\<open>[$fragment, 'a']\<close> leaves a delimiter and a text, where \<^verbatim>\<open>createNode\<close> builds the text alone.
\<close>

theorem render_convergence_counterexample:
  "fst (render IndexJsWithFragmentNs (Arr fragment_name [Prim (PString ''a'')])
          (Element (Some htmlns) ''div'' [] [] [Text ''z''])) =
     InPlace (Element (Some htmlns) ''div'' [] [] [Comment True [], Text ''a''])
   \<and> createNode IndexJsWithFragmentNs (Arr fragment_name [Prim (PString ''a'')])
        (Uri (Some htmlns)) = [Text ''a'']
   \<and> map shapeOf [Comment True [], Text ''a''] \<noteq> map shapeOf [Text ''a'']"
  by code_simp

section \<open>Defects found at concrete inputs\<close>

text \<open>
  Claim C8.  \<^verbatim>\<open>patchNode\<close> stringifies the whole description, which for a comment is an
  array and gives the empty string, where \<^verbatim>\<open>createComment\<close> stringifies its second entry.
  The comment \<^verbatim>\<open>[$comment, 'x']\<close> patched against the live comment it builds, whose value is
  already \<^verbatim>\<open>x\<close>, has its value written, and set to the empty string.
\<close>

theorem patchNode_comment_value_rewritten:
  "createComment [Prim (PString ''x'')] = Comment False ''x''
   \<and> sameNodeName (Arr comment_name [Prim (PString ''x'')]) (Comment False ''x'')
   \<and> patchNode m (Arr comment_name [Prim (PString ''x'')]) (Comment False ''x'') =
       (InPlace (Comment False []), [ValueWritten (Comment False ''x'') []])"
  by (simp add: patchNode_def sameNodeName_def)

text \<open>
  Claim C7.  A fragment patched into a parent without children is built by
  \<^verbatim>\<open>createDocumentFragment\<close>, without a delimiter.  The next patch finds a text where the
  delimiter should be, replaces it by a whole delimited fragment and leaves the old second
  text behind.
\<close>

theorem render_fragment_into_empty_parent:
  "render m (Arr fragment_name [Prim (PString ''a''), Prim (PString ''b'')])
       (Element (Some htmlns) ''div'' [] [] []) =
     (InPlace (Element (Some htmlns) ''div'' [] [] [Text ''a'', Text ''b'']),
      [Appended [Text ''a'', Text ''b'']])
   \<and> render m (Arr fragment_name [Prim (PString ''a''), Prim (PString ''c'')])
       (Element (Some htmlns) ''div'' [] [] [Text ''a'', Text ''b'']) =
     (InPlace (Element (Some htmlns) ''div'' [] []
        [Comment True [], Text ''a'', Text ''c'', Text ''b'']),
      [Replaced (Text ''a'') [Comment True [], Text ''a'', Text ''c'']])"
  by (induct m; code_simp)

text \<open>
  Claim C6.  A live element holds a delimiter, the text of a mounted fragment and one more
  text; the description has the fragment as its only child.  After the fragment the walker
  stands on the last child, which has no next sibling, so \<^verbatim>\<open>currentNode\<close> becomes \<^verbatim>\<open>null\<close>
  and the surplus text is not removed.
\<close>

theorem patchElement_surplus_after_fragment_kept:
  "patchElement m ''div'' [Arr fragment_name [Prim (PString ''a'')]]
       (Element (Some htmlns) ''div'' [] [] [Comment True [], Text ''a'', Text ''stale'']) =
     (InPlace (Element (Some htmlns) ''div'' [] [] [Comment True [], Text ''a'', Text ''stale'']),
      [])"
  by (induct m; code_simp)

text \<open>
  Claim C2.  The description \<^verbatim>\<open>['p', {id: 'x'}]\<close> is rendered into an empty root, and rendered
  again into the result.  The second pass finds the \<^verbatim>\<open><p>\<close> without children and appends
  \<^verbatim>\<open>createDocumentFragment(jsonml, ...)\<close>, which reads the attribute map as a child: an empty
  text is created and appended.
\<close>

theorem render_twice_appends_text:
  "render m (Arr ''p'' [Obj [(KString ''id'', PString ''x'')]])
       (Element (Some htmlns) ''div'' [] [] []) =
     (InPlace (Element (Some htmlns) ''div'' [] []
        [Element (Some htmlns) ''p'' [(''id'', ''x'')] [] []]),
      [Appended [Element (Some htmlns) ''p'' [(''id'', ''x'')] [] []]])
   \<and> render m (Arr ''p'' [Obj [(KString ''id'', PString ''x'')]])
       (Element (Some htmlns) ''div'' [] []
          [Element (Some htmlns) ''p'' [(''id'', ''x'')] [] []]) =
     (InPlace (Element (Some htmlns) ''div'' [] []
        [Element (Some htmlns) ''p'' [(''id'', ''x'')] [] [Text []]]),
      [Appended [Text []]])"
  by (induct m; code_simp)

text \<open>
  Claim C9.  In \<^verbatim>\<open>src/index.js\<close> the fragment case of \<^verbatim>\<open>createNode\<close> drops the namespace: a
  \<^verbatim>\<open>circle\<close> inside a fragment inside an SVG \<^verbatim>\<open>g\<close> is built in the HTML namespace.  The other
  copy of the module passes the namespace on.
\<close>

theorem createNode_fragment_drops_namespace:
  "createNode IndexJs (Arr ''g'' [Arr fragment_name [Arr ''circle'' []]]) (Uri (Some svgns)) =
     [Element (Some svgns) ''g'' [] [] [Element (Some htmlns) ''circle'' [] [] []]]
   \<and> createNode IndexJsWithFragmentNs (Arr ''g'' [Arr fragment_name [Arr ''circle'' []]])
       (Uri (Some svgns)) =
     [Element (Some svgns) ''g'' [] [] [Element (Some svgns) ''circle'' [] [] []]]"
  by code_simp

end
